theory Spec2Isabelle
  imports Main "HOL-Library.Word" "HOL-Library.Sublist"
begin

section \<open>OP Face: the mint contract\<close>

text \<open>
  A shallow embedding of \<^verbatim>\<open>contract/src/contracts/OPFace.ts\<close>. The contract is a
  subclass of the runtime's OP721 token ledger; its own code is the supply check, the
  scan of the transaction outputs for the treasury payment, the two provenance maps and
  the five entry points. Storage is a record that every method takes and returns; a
  \<^verbatim>\<open>throw new Revert(msg)\<close> is the left injection of a sum.
\<close>

subsection \<open>Values\<close>

type_synonym u256 = "256 word"
type_synonym u64 = "64 word"
type_synonym u32 = "32 word"

text \<open>
  An \<^verbatim>\<open>Address\<close> of the runtime is a 32-byte value. The contract only ever stores it
  through \<^verbatim>\<open>_u256FromAddress\<close> and hands it to the ledger, so it is modelled as the
  256-bit number those 32 bytes spell.
\<close>

type_synonym address = "256 word"

datatype error = Revert string

text \<open>What a \<^verbatim>\<open>BytesWriter\<close> has been given, in order.\<close>

datatype written = WU256 u256 | WU32 u32 | WBytes string

type_synonym BytesWriter = "written list"

subsection \<open>Constants\<close>

definition MINT_PRICE :: u64 where
  "MINT_PRICE = 500000"

definition TREASURY :: string where
  "TREASURY = ''bcrt1pzcu0e6e04uc5l43fvrr2czh2fxh5my8c08ggnywghw3hchznqdcsr9x2s9''"

subsection \<open>Decimal rendering of numbers in messages\<close>

text \<open>
  A template literal renders an integer in base ten, without sign or padding.
\<close>

definition digit_char :: "nat \<Rightarrow> char" where
  "digit_char d = ''0123456789'' ! d"

fun dec_digits :: "nat \<Rightarrow> string" where
  "dec_digits n = (if n < 10 then [digit_char n] else dec_digits (n div 10) @ [digit_char (n mod 10)])"

declare dec_digits.simps [simp del]

definition toString :: "'a::len word \<Rightarrow> string" where
  "toString w = dec_digits (unat w)"

subsection \<open>The transaction environment\<close>

text \<open>
  \<^verbatim>\<open>Blockchain.tx.outputs\<close> is a list of outputs, each with a nullable decoded address
  \<^verbatim>\<open>to\<close> and an unsigned 64-bit \<^verbatim>\<open>value\<close>; \<^verbatim>\<open>Blockchain.tx.sender\<close> and
  \<^verbatim>\<open>Blockchain.block.number\<close> complete what the contract reads of its environment.
\<close>

record TransactionOutput =
  to_out :: "string option"
  value_out :: u64

record Blockchain =
  sender :: address
  outputs :: "TransactionOutput list"
  block_number :: u64

subsection \<open>Storage\<close>

record OP721InitParameters =
  name :: string
  symbol :: string
  baseURI :: string
  maxSupply :: u256
  collectionBanner :: string
  collectionIcon :: string
  collectionWebsite :: string
  collectionDescription :: string

datatype event = Transfer address address u256

text \<open>
  The ledger's cells (\<^verbatim>\<open>_totalSupply\<close>, \<^verbatim>\<open>_nextTokenId\<close>, the owner table, the
  per-token URI store, the event log) and the contract's own two maps
  \<^verbatim>\<open>_minterOf\<close> and \<^verbatim>\<open>_mintedAt\<close>. A stored map is a partial map from token ids;
  a key never written reads as zero (see \<open>get_stored\<close>).
\<close>

record storage =
  collection :: "OP721InitParameters option"
  totalSupply :: u256
  nextTokenId :: u256
  ownerOfMap :: "u256 \<rightharpoonup> address"
  tokenURIs :: "u256 \<rightharpoonup> string"
  minterOfMap :: "u256 \<rightharpoonup> u256"
  mintedAtMap :: "u256 \<rightharpoonup> u256"
  events :: "event list"

definition fresh :: storage where
  "fresh = \<lparr> collection = None, totalSupply = 0, nextTokenId = 0,
             ownerOfMap = Map.empty, tokenURIs = Map.empty,
             minterOfMap = Map.empty, mintedAtMap = Map.empty, events = [] \<rparr>"

subsection \<open>The inherited ledger\<close>

text \<open>
  The OP721 base class, \<^verbatim>\<open>SafeMath\<close> and the stored maps belong to the runtime
  package \<^verbatim>\<open>@btc-vision/btc-runtime\<close>, which is not part of the source tree. Each of
  their operations that the contract calls is given here as the spec describes it. The
  source's \<^verbatim>\<open>_mint\<close>, \<^verbatim>\<open>_setTokenURI\<close>, \<^verbatim>\<open>_exists\<close> and
  \<^verbatim>\<open>_u256FromAddress\<close> are \<open>mint_base\<close>, \<open>setTokenURI\<close>, \<open>exists_token\<close> and
  \<open>u256FromAddress\<close>.
\<close>

text \<open>
  Modelled from the spec: \<^verbatim>\<open>StoredMapU256.get\<close> is missing. The two maps are
  "auxiliary key-value maps"; a key never written reads as zero, the value of untouched
  storage.
\<close>

definition get_stored :: "(u256 \<rightharpoonup> u256) \<Rightarrow> u256 \<Rightarrow> u256" where
  "get_stored m k = (case m k of None \<Rightarrow> 0 | Some v \<Rightarrow> v)"

text \<open>
  Modelled from the spec: \<^verbatim>\<open>OP721.instantiate\<close> is missing. "Deployment
  initialization sets collection name, symbol, a base metadata URI prefix, and fixed
  maximum supply".
\<close>

definition instantiate :: "OP721InitParameters \<Rightarrow> storage \<Rightarrow> storage" where
  "instantiate p s = s\<lparr>collection := Some p\<rparr>"

text \<open>
  Modelled from the spec: \<^verbatim>\<open>OP721._exists\<close> is missing. "tokenId must refer to an
  existing token (owner lookup succeeds)".
\<close>

definition exists_token :: "u256 \<Rightarrow> storage \<Rightarrow> bool" where
  "exists_token tokenId s = (ownerOfMap s tokenId \<noteq> None)"

text \<open>
  Modelled from the spec: \<^verbatim>\<open>OP721._mint\<close> is missing. The inherited mint primitive
  "sets owner = caller, increments SupplyCounter, and emits a standard ownership-transfer
  event with a null/zero from and the caller as to".
\<close>

definition mint_base :: "address \<Rightarrow> u256 \<Rightarrow> storage \<Rightarrow> storage" where
  "mint_base owner tokenId s =
     s\<lparr>ownerOfMap := (ownerOfMap s)(tokenId \<mapsto> owner),
       totalSupply := totalSupply s + 1,
       events := events s @ [Transfer 0 owner tokenId]\<rparr>"

text \<open>
  Modelled from the spec: \<^verbatim>\<open>OP721._setTokenURI\<close> is missing. "Persist the supplied
  tokenURI string against tokenId via the inherited metadata-URI store".
\<close>

definition setTokenURI :: "u256 \<Rightarrow> string \<Rightarrow> storage \<Rightarrow> storage" where
  "setTokenURI tokenId uri s = s\<lparr>tokenURIs := (tokenURIs s)(tokenId \<mapsto> uri)\<rparr>"

text \<open>
  Modelled from the spec: \<^verbatim>\<open>OP721._u256FromAddress\<close> is missing. "Persist
  MinterOf[tokenId] := caller address": the stored number is the address itself.
\<close>

definition u256FromAddress :: "address \<Rightarrow> u256" where
  "u256FromAddress a = a"

text \<open>
  Modelled from the spec: \<^verbatim>\<open>SafeMath.add\<close> is missing. The increment "must use
  saturating/trapping arithmetic, never silent wraparound": the sum, or a revert when it
  does not fit 256 bits.
\<close>

definition SafeMath_add :: "u256 \<Rightarrow> u256 \<Rightarrow> error + u256" where
  "SafeMath_add a b =
     (let c = a + b in if c < a then Inl (Revert ''SafeMath: addition overflow'') else Inr c)"

text \<open>
  Modelled from the spec: the transfer entry points of OP721 are missing. "TokenRecord's
  owner field may be mutated later by transfer operations": the owner of a token hands
  it to a recipient, which changes the owner table and logs the event.
\<close>

definition transfer_base :: "Blockchain \<Rightarrow> address \<Rightarrow> u256 \<Rightarrow> storage \<Rightarrow> (error \<times> storage) + (BytesWriter \<times> storage)" where
  "transfer_base bc recipient tokenId s =
     (if ownerOfMap s tokenId = Some (sender bc)
      then Inr ([], s\<lparr>ownerOfMap := (ownerOfMap s)(tokenId \<mapsto> recipient),
                     events := events s @ [Transfer (sender bc) recipient tokenId]\<rparr>)
      else Inl (Revert ''OP721: caller is not the owner'', s))"

subsection \<open>The contract\<close>

definition onDeployment :: "storage \<Rightarrow> storage" where
  "onDeployment s =
     (let s1 = instantiate
                 \<lparr> name = ''OP Face'', symbol = ''OPFACE'', baseURI = ''ipfs://'',
                   maxSupply = 100, collectionBanner = [], collectionIcon = [],
                   collectionWebsite = ''https://opface.btc'',
                   collectionDescription =
                     ''Limited to 100 unique faces minted on Bitcoin via OP_NET.'' \<rparr> s
      in s1\<lparr>nextTokenId := 1\<rparr>)"

definition deployed :: storage where
  "deployed = onDeployment fresh"

text \<open>
  The contract has one kind of failure, \<^verbatim>\<open>throw new Revert(message)\<close>. The three
  errors the specification names are the three messages it throws: in \<^verbatim>\<open>mint\<close>
  for the supply cap, in \<^verbatim>\<open>_requireTreasuryPayment\<close>, and in
  \<^verbatim>\<open>_requireExists\<close>.
\<close>

definition SupplyExceeded :: error where
  "SupplyExceeded = Revert ''OPFace: max supply of 100 reached''"

definition PaymentNotFound :: error where
  "PaymentNotFound =
     Revert (''OPFace: no output found sending '' @ toString MINT_PRICE @ '' sat to treasury. '' @
             ''Include an output to '' @ TREASURY @ '' with at least 0.005 tBTC.'')"

definition TokenNotFound :: "u256 \<Rightarrow> error" where
  "TokenNotFound tokenId = Revert (''OPFace: token '' @ toString tokenId @ '' does not exist'')"

text \<open>
  The loop of \<^verbatim>\<open>_requireTreasuryPayment\<close> walks the outputs from index 0 and returns at
  the first one that names the treasury and carries at least the price; falling off the
  end throws.
\<close>

fun requireTreasuryPayment :: "TransactionOutput list \<Rightarrow> error + unit" where
  "requireTreasuryPayment [] = Inl PaymentNotFound"
| "requireTreasuryPayment (out # rest) =
     (if to_out out \<noteq> None \<and> to_out out = Some TREASURY \<and> value_out out \<ge> MINT_PRICE
      then Inr ()
      else requireTreasuryPayment rest)"

definition requireExists :: "u256 \<Rightarrow> storage \<Rightarrow> error + unit" where
  "requireExists tokenId s =
     (if \<not> exists_token tokenId s then Inl (TokenNotFound tokenId) else Inr ())"

text \<open>
  \<^verbatim>\<open>mint\<close>, statement by statement. A failure carries the storage as it stands at
  the throw, so that what had been written before it is visible; the platform discards
  that storage when it reverts the call (see \<open>exec\<close>).
\<close>

definition mint :: "Blockchain \<Rightarrow> string \<Rightarrow> storage \<Rightarrow> (error \<times> storage) + (BytesWriter \<times> storage)" where
  "mint bc uri s =
     (if totalSupply s \<ge> 100 then Inl (SupplyExceeded, s)
      else case requireTreasuryPayment (outputs bc) of
        Inl e \<Rightarrow> Inl (e, s)
      | Inr _ \<Rightarrow>
          (let tokenId = nextTokenId s;
               s1 = mint_base (sender bc) tokenId s;
               s2 = setTokenURI tokenId uri s1;
               s3 = s2\<lparr>minterOfMap := (minterOfMap s2)(tokenId \<mapsto> u256FromAddress (sender bc))\<rparr>;
               s4 = s3\<lparr>mintedAtMap := (mintedAtMap s3)(tokenId \<mapsto> ucast (block_number bc))\<rparr>
           in case SafeMath_add tokenId 1 of
                Inl e \<Rightarrow> Inl (e, s4)
              | Inr n \<Rightarrow> Inr ([WU256 tokenId], s4\<lparr>nextTokenId := n\<rparr>)))"

definition minterOf :: "u256 \<Rightarrow> storage \<Rightarrow> error + BytesWriter" where
  "minterOf tokenId s =
     (case requireExists tokenId s of
        Inl e \<Rightarrow> Inl e
      | Inr _ \<Rightarrow> Inr [WU256 (get_stored (minterOfMap s) tokenId)])"

definition mintedAt :: "u256 \<Rightarrow> storage \<Rightarrow> error + BytesWriter" where
  "mintedAt tokenId s =
     (case requireExists tokenId s of
        Inl e \<Rightarrow> Inl e
      | Inr _ \<Rightarrow> Inr [WU256 (get_stored (mintedAtMap s) tokenId)])"

definition mintPrice :: "storage \<Rightarrow> error + BytesWriter" where
  "mintPrice s = Inr [WU256 (ucast MINT_PRICE)]"

definition treasury :: "storage \<Rightarrow> error + BytesWriter" where
  "treasury s = Inr [WU32 (of_nat (length TREASURY)), WBytes TREASURY]"

subsection \<open>Calls and their execution\<close>

text \<open>
  One call of an entry point inside a transaction. The platform runs calls one after the
  other and reverts a call that throws: its storage is the one before the call.
  \<open>TransferFrom\<close> stands for the ownership transfers of the inherited ledger.
\<close>

datatype call =
    Mint string
  | MinterOf u256
  | MintedAt u256
  | MintPrice
  | Treasury
  | TransferFrom address u256

fun commit :: "storage \<Rightarrow> (error \<times> storage) + (BytesWriter \<times> storage) \<Rightarrow> storage \<times> (error + BytesWriter)" where
  "commit s (Inl (e, _)) = (s, Inl e)"
| "commit s (Inr (w, s')) = (s', Inr w)"

fun exec :: "Blockchain \<Rightarrow> call \<Rightarrow> storage \<Rightarrow> storage \<times> (error + BytesWriter)" where
  "exec bc (Mint uri) s = commit s (mint bc uri s)"
| "exec bc (MinterOf tokenId) s = (s, minterOf tokenId s)"
| "exec bc (MintedAt tokenId) s = (s, mintedAt tokenId s)"
| "exec bc MintPrice s = (s, mintPrice s)"
| "exec bc Treasury s = (s, treasury s)"
| "exec bc (TransferFrom recipient tokenId) s = commit s (transfer_base bc recipient tokenId s)"

fun run :: "(Blockchain \<times> call) list \<Rightarrow> storage \<Rightarrow> storage" where
  "run [] s = s"
| "run ((bc, c) # cs) s = run cs (fst (exec bc c s))"

text \<open>Whether a step is a mint that succeeded, and the id it returned.\<close>

fun minted_by :: "Blockchain \<Rightarrow> call \<Rightarrow> storage \<Rightarrow> u256 option" where
  "minted_by bc (Mint uri) s =
     (case mint bc uri s of Inl _ \<Rightarrow> None | Inr _ \<Rightarrow> Some (nextTokenId s))"
| "minted_by bc _ s = None"

fun minted_ids :: "(Blockchain \<times> call) list \<Rightarrow> storage \<Rightarrow> u256 list" where
  "minted_ids [] s = []"
| "minted_ids ((bc, c) # cs) s =
     (case minted_by bc c s of None \<Rightarrow> [] | Some t \<Rightarrow> [t]) @ minted_ids cs (fst (exec bc c s))"

definition successful_mints :: "(Blockchain \<times> call) list \<Rightarrow> storage \<Rightarrow> nat" where
  "successful_mints cs s = length (minted_ids cs s)"

inductive reachable :: "storage \<Rightarrow> bool" where
  reachable_deployed: "reachable deployed"
| reachable_exec: "reachable s \<Longrightarrow> reachable (fst (exec bc c s))"

subsection \<open>The ledger invariant\<close>

text \<open>
  What holds of the storage after deployment and any number of calls: at most 100 tokens,
  the id counter one ahead of the supply, and the owner table and both provenance maps
  defined exactly on the ids handed out so far.
\<close>

definition ledger_inv :: "storage \<Rightarrow> bool" where
  "ledger_inv s \<longleftrightarrow>
     totalSupply s \<le> 100 \<and> nextTokenId s = totalSupply s + 1 \<and>
     dom (ownerOfMap s) = {t. 1 \<le> t \<and> t \<le> totalSupply s} \<and>
     dom (minterOfMap s) = {t. 1 \<le> t \<and> t \<le> totalSupply s} \<and>
     dom (mintedAtMap s) = {t. 1 \<le> t \<and> t \<le> totalSupply s}"

subsection \<open>Concrete transactions\<close>

text \<open>
  A transaction paying exactly the price to the treasury, one paying 400,000, one with
  both outputs, one with no output at all, and the storage after one and after a hundred
  paid mints.
\<close>

definition paying :: Blockchain where
  "paying = \<lparr> sender = 7, outputs = [\<lparr> to_out = Some TREASURY, value_out = 500000 \<rparr>],
              block_number = 840000 \<rparr>"

definition underpaying :: Blockchain where
  "underpaying = \<lparr> sender = 7, outputs = [\<lparr> to_out = Some TREASURY, value_out = 400000 \<rparr>],
                   block_number = 840000 \<rparr>"

definition mixed :: Blockchain where
  "mixed = \<lparr> sender = 7,
             outputs = [\<lparr> to_out = Some TREASURY, value_out = 400000 \<rparr>,
                        \<lparr> to_out = Some TREASURY, value_out = 500000 \<rparr>],
             block_number = 840000 \<rparr>"

definition unpaid :: Blockchain where
  "unpaid = \<lparr> sender = 7, outputs = [], block_number = 840000 \<rparr>"

definition first_minted :: storage where
  "first_minted = run [(paying, Mint ''ipfs://a'')] deployed"

definition sold_out :: storage where
  "sold_out = run (replicate 100 (paying, Mint ''ipfs://a'')) deployed"

fun message :: "error \<Rightarrow> string" where
  "message (Revert m) = m"

section \<open>Basic facts\<close>

subsection \<open>Arithmetic on small 256-bit numbers\<close>

lemma unat_succ_le100:
  assumes "n \<le> 100"
  shows "unat (n + 1 :: u256) = unat n + 1"
proof -
  have "unat n \<le> 100" using assms by (simp add: word_le_nat_alt)
  then have "unat n + unat (1 :: u256) < 2 ^ LENGTH(256)" by simp
  then have "unat (n + 1) = unat n + unat (1 :: u256)"
    by (simp only: unat_add_lem)
  then show ?thesis by simp
qed

lemma unat_succ_small: "n < 100 \<Longrightarrow> unat (n + 1 :: u256) = unat n + 1"
  by (simp add: unat_succ_le100)

lemma le_succ_small: "n < 100 \<Longrightarrow> (t \<le> n + 1) = (t \<le> n \<or> t = n + (1::u256))"
  by (auto simp: word_le_nat_alt unat_succ_small word_unat_eq_iff)

lemma one_le_succ_small: "n < 100 \<Longrightarrow> 1 \<le> n + (1::u256)"
  by (simp add: word_le_nat_alt unat_succ_small)

lemma succ_not_le_small: "n < 100 \<Longrightarrow> \<not> (n + (1::u256) \<le> n)"
  by (simp add: word_le_nat_alt unat_succ_small)

lemma succ_le_hundred: "n < 100 \<Longrightarrow> n + (1::u256) \<le> 100"
proof -
  assume a: "n < 100"
  then have "unat n < 100" by (simp add: word_less_nat_alt)
  with a show ?thesis by (simp add: word_le_nat_alt unat_succ_small)
qed

lemma one_le_word_iff: "(1 \<le> (n :: u256)) = (n \<noteq> 0)"
  by (simp add: word_le_nat_alt Suc_le_eq unat_gt_0)

lemma succ_neq_zero_small: "n < 100 \<Longrightarrow> n + (1::u256) \<noteq> 0"
  using one_le_succ_small [of n] by (simp add: one_le_word_iff)

lemma unat_block_number: "unat (ucast (b :: u64) :: u256) = unat b"
proof -
  have "uint (ucast b :: u256) = uint b"
    by (rule uint_up_ucast) (simp add: is_up)
  then have "nat (uint (ucast b :: u256)) = nat (uint b)" by (rule arg_cong)
  then show ?thesis by (simp only: nat_uint_eq)
qed

lemma SafeMath_add_small: "n \<le> 100 \<Longrightarrow> SafeMath_add n 1 = Inr (n + 1)"
proof -
  assume "n \<le> 100"
  then have "unat (n + 1) = unat n + 1" by (rule unat_succ_le100)
  then have "\<not> (n + 1 < n)" by (simp add: word_less_nat_alt)
  then show ?thesis by (simp add: SafeMath_add_def Let_def)
qed

lemma SafeMath_add_Inr:
  assumes "SafeMath_add a 1 = Inr c"
  shows "c = a + 1 \<and> unat c = unat a + 1"
proof -
  from assms have c: "c = a + 1" and n: "\<not> a + 1 < a"
    by (auto simp: SafeMath_add_def Let_def split: if_splits)
  from n have "a \<le> a + 1" by simp
  then have "unat (a + 1) = unat a + unat (1 :: u256)"
    by (rule unat_plus_simple [THEN iffD1])
  with c show ?thesis by simp
qed

subsection \<open>Messages\<close>

lemma toString_price: "toString MINT_PRICE = ''500000''"
  by (simp add: toString_def MINT_PRICE_def dec_digits.simps digit_char_def)

lemma PaymentNotFound_names:
  "sublist ''500000'' (message PaymentNotFound)" "sublist TREASURY (message PaymentNotFound)"
proof -
  have a: "message PaymentNotFound =
      ''OPFace: no output found sending '' @ ''500000'' @ ('' sat to treasury. '' @
             ''Include an output to '' @ TREASURY @ '' with at least 0.005 tBTC.'')"
    by (simp only: PaymentNotFound_def toString_price message.simps)
  show "sublist ''500000'' (message PaymentNotFound)"
    unfolding a by (rule sublist_appendI)
  have b: "message PaymentNotFound =
      (''OPFace: no output found sending '' @ ''500000'' @ '' sat to treasury. '' @
             ''Include an output to '') @ TREASURY @ '' with at least 0.005 tBTC.''"
    by (simp only: PaymentNotFound_def toString_price message.simps append_assoc)
  show "sublist TREASURY (message PaymentNotFound)"
    unfolding b by (rule sublist_appendI)
qed

lemma errors_distinct:
  "SupplyExceeded \<noteq> PaymentNotFound"
  "Revert ''SafeMath: addition overflow'' \<noteq> SupplyExceeded"
  "Revert ''SafeMath: addition overflow'' \<noteq> PaymentNotFound"
  by (simp_all add: SupplyExceeded_def PaymentNotFound_def)

subsection \<open>The payment scan\<close>

lemma rtp_ok_iff:
  "requireTreasuryPayment outs = Inr () \<longleftrightarrow>
     (\<exists>out\<in>set outs. to_out out = Some TREASURY \<and> MINT_PRICE \<le> value_out out)"
  by (induction outs) auto

lemma rtp_cases:
  "requireTreasuryPayment outs = Inr () \<or> requireTreasuryPayment outs = Inl PaymentNotFound"
  by (induction outs) auto

lemma paying_ok: "requireTreasuryPayment (outputs paying) = Inr ()"
  by (simp add: paying_def MINT_PRICE_def)

lemma underpaying_fails: "requireTreasuryPayment (outputs underpaying) = Inl PaymentNotFound"
  by (simp add: underpaying_def MINT_PRICE_def)

lemma paying_fields: "sender paying = 7" "block_number paying = 840000"
  by (simp_all add: paying_def)

subsection \<open>The four ways through mint\<close>

lemma mint_supply_exceeded: "100 \<le> totalSupply s \<Longrightarrow> mint bc uri s = Inl (SupplyExceeded, s)"
  by (simp add: mint_def)

lemma mint_payment_missing:
  assumes "totalSupply s < 100" and "requireTreasuryPayment (outputs bc) \<noteq> Inr ()"
  shows "mint bc uri s = Inl (PaymentNotFound, s)"
proof -
  from assms(1) have n: "\<not> 100 \<le> totalSupply s" by simp
  from assms(2) rtp_cases [of "outputs bc"]
  have "requireTreasuryPayment (outputs bc) = Inl PaymentNotFound" by blast
  with n show ?thesis by (simp add: mint_def)
qed

lemma mint_overflow:
  assumes "totalSupply s < 100" and "requireTreasuryPayment (outputs bc) = Inr ()"
    and "SafeMath_add (nextTokenId s) 1 = Inl e"
  shows "\<exists>t. mint bc uri s = Inl (e, t)"
proof -
  from assms(1) have "\<not> 100 \<le> totalSupply s" by simp
  with assms(2,3) show ?thesis by (simp add: mint_def Let_def)
qed

lemma mint_paid:
  assumes "totalSupply s < 100" and "requireTreasuryPayment (outputs bc) = Inr ()"
    and "SafeMath_add (nextTokenId s) 1 = Inr n"
  shows "mint bc uri s =
     Inr ([WU256 (nextTokenId s)],
          s\<lparr>ownerOfMap := (ownerOfMap s)(nextTokenId s \<mapsto> sender bc),
            totalSupply := totalSupply s + 1,
            events := events s @ [Transfer 0 (sender bc) (nextTokenId s)],
            tokenURIs := (tokenURIs s)(nextTokenId s \<mapsto> uri),
            minterOfMap := (minterOfMap s)(nextTokenId s \<mapsto> sender bc),
            mintedAtMap := (mintedAtMap s)(nextTokenId s \<mapsto> ucast (block_number bc)),
            nextTokenId := n\<rparr>)"
proof -
  from assms(1) have "\<not> 100 \<le> totalSupply s" by simp
  with assms(2,3) show ?thesis
    by (simp add: mint_def Let_def mint_base_def setTokenURI_def u256FromAddress_def)
qed

lemma mint_Inl_D:
  assumes "mint bc uri s = Inl (e, s')"
  shows "(e = SupplyExceeded \<and> s' = s \<and> 100 \<le> totalSupply s) \<or>
         (e = PaymentNotFound \<and> s' = s \<and> totalSupply s < 100 \<and>
            requireTreasuryPayment (outputs bc) = Inl PaymentNotFound) \<or>
         (e = Revert ''SafeMath: addition overflow'' \<and> totalSupply s < 100 \<and>
            requireTreasuryPayment (outputs bc) = Inr ())"
proof (cases "100 \<le> totalSupply s")
  case True
  with assms show ?thesis by (simp add: mint_supply_exceeded)
next
  case False
  then have lt: "totalSupply s < 100" by simp
  show ?thesis
  proof (cases "requireTreasuryPayment (outputs bc) = Inr ()")
    case False
    with rtp_cases [of "outputs bc"] mint_payment_missing [OF lt False, of uri] assms lt
    show ?thesis by auto
  next
    case True
    show ?thesis
    proof (cases "SafeMath_add (nextTokenId s) 1")
      case (Inl e')
      then have "e' = Revert ''SafeMath: addition overflow''"
        by (auto simp: SafeMath_add_def Let_def split: if_splits)
      with mint_overflow [OF lt True Inl, of uri] assms lt True show ?thesis by auto
    next
      case (Inr n)
      from mint_paid [OF lt True Inr, of uri] assms show ?thesis by simp
    qed
  qed
qed

lemma mint_Inr_D:
  assumes "mint bc uri s = Inr (w, s')"
  shows "totalSupply s < 100" and "requireTreasuryPayment (outputs bc) = Inr ()"
    and "SafeMath_add (nextTokenId s) 1 = Inr (nextTokenId s + 1)"
    and "w = [WU256 (nextTokenId s)]"
    and "s' = s\<lparr>ownerOfMap := (ownerOfMap s)(nextTokenId s \<mapsto> sender bc),
            totalSupply := totalSupply s + 1,
            events := events s @ [Transfer 0 (sender bc) (nextTokenId s)],
            tokenURIs := (tokenURIs s)(nextTokenId s \<mapsto> uri),
            minterOfMap := (minterOfMap s)(nextTokenId s \<mapsto> sender bc),
            mintedAtMap := (mintedAtMap s)(nextTokenId s \<mapsto> ucast (block_number bc)),
            nextTokenId := nextTokenId s + 1\<rparr>"
proof -
  show a: "totalSupply s < 100"
  proof (rule ccontr)
    assume "\<not> totalSupply s < 100"
    then have "100 \<le> totalSupply s" by simp
    from mint_supply_exceeded [OF this, of bc uri] assms show False by simp
  qed
  show b: "requireTreasuryPayment (outputs bc) = Inr ()"
  proof (rule ccontr)
    assume "requireTreasuryPayment (outputs bc) \<noteq> Inr ()"
    from mint_payment_missing [OF a this, of uri] assms show False by simp
  qed
  obtain n where n: "SafeMath_add (nextTokenId s) 1 = Inr n"
  proof (cases "SafeMath_add (nextTokenId s) 1")
    case (Inl e)
    from mint_overflow [OF a b Inl, of uri] assms show ?thesis by auto
  next
    case (Inr n)
    then show ?thesis by (rule that)
  qed
  then have "n = nextTokenId s + 1" by (simp add: SafeMath_add_Inr)
  with n show c: "SafeMath_add (nextTokenId s) 1 = Inr (nextTokenId s + 1)" by simp
  from assms mint_paid [OF a b c, of uri]
  show "w = [WU256 (nextTokenId s)]"
    and "s' = s\<lparr>ownerOfMap := (ownerOfMap s)(nextTokenId s \<mapsto> sender bc),
            totalSupply := totalSupply s + 1,
            events := events s @ [Transfer 0 (sender bc) (nextTokenId s)],
            tokenURIs := (tokenURIs s)(nextTokenId s \<mapsto> uri),
            minterOfMap := (minterOfMap s)(nextTokenId s \<mapsto> sender bc),
            mintedAtMap := (mintedAtMap s)(nextTokenId s \<mapsto> ucast (block_number bc)),
            nextTokenId := nextTokenId s + 1\<rparr>"
    by simp_all
qed

subsection \<open>The read entry points\<close>

lemma minterOf_existing:
  "ownerOfMap s tid = Some a \<Longrightarrow> minterOf tid s = Inr [WU256 (get_stored (minterOfMap s) tid)]"
  by (simp add: minterOf_def requireExists_def exists_token_def)

lemma mintedAt_existing:
  "ownerOfMap s tid = Some a \<Longrightarrow> mintedAt tid s = Inr [WU256 (get_stored (mintedAtMap s) tid)]"
  by (simp add: mintedAt_def requireExists_def exists_token_def)

lemma reads_missing:
  "ownerOfMap s tid = None \<Longrightarrow>
   minterOf tid s = Inl (TokenNotFound tid) \<and> mintedAt tid s = Inl (TokenNotFound tid)"
  by (simp add: minterOf_def mintedAt_def requireExists_def exists_token_def)

subsection \<open>The invariant is kept\<close>

lemma ids_upto_zero: "{t :: u256. 1 \<le> t \<and> t \<le> 0} = {}"
  by (auto simp: word_le_nat_alt)

lemma ids_upto_succ:
  "n < 100 \<Longrightarrow> {t :: u256. 1 \<le> t \<and> t \<le> n + 1} = insert (n + 1) {t. 1 \<le> t \<and> t \<le> n}"
  by (auto simp: le_succ_small one_le_word_iff succ_neq_zero_small)

lemma deployed_fields:
  "totalSupply deployed = 0" "nextTokenId deployed = 1"
  "ownerOfMap deployed = Map.empty" "minterOfMap deployed = Map.empty"
  "mintedAtMap deployed = Map.empty" "tokenURIs deployed = Map.empty"
  by (simp_all add: deployed_def onDeployment_def instantiate_def fresh_def Let_def)

lemma ledger_inv_deployed: "ledger_inv deployed"
  by (simp add: ledger_inv_def deployed_fields ids_upto_zero)

lemma ledger_inv_mint:
  assumes "ledger_inv s" and "mint bc uri s = Inr (w, s')"
  shows "ledger_inv s'"
proof -
  note m = mint_Inr_D [OF assms(2)]
  show ?thesis
    using assms(1) m(1)
    by (simp add: m(5) ledger_inv_def ids_upto_succ succ_le_hundred)
qed

lemma ledger_inv_transfer:
  assumes "ledger_inv s" and "transfer_base bc r t s = Inr (w, s')"
  shows "ledger_inv s'"
proof -
  from assms(2) have o: "ownerOfMap s t = Some (sender bc)"
    and s': "s' = s\<lparr>ownerOfMap := (ownerOfMap s)(t \<mapsto> r),
                     events := events s @ [Transfer (sender bc) r t]\<rparr>"
    by (auto simp: transfer_base_def split: if_splits)
  from o have "insert t (dom (ownerOfMap s)) = dom (ownerOfMap s)" by auto
  with assms(1) show ?thesis by (simp add: s' ledger_inv_def)
qed

lemma ledger_inv_exec: "ledger_inv s \<Longrightarrow> ledger_inv (fst (exec bc c s))"
proof (cases c)
  case (Mint uri)
  assume "ledger_inv s"
  then show ?thesis using Mint
    by (cases "mint bc uri s") (auto dest: ledger_inv_mint)
next
  case (TransferFrom r t)
  assume "ledger_inv s"
  then show ?thesis using TransferFrom
    by (cases "transfer_base bc r t s") (auto dest: ledger_inv_transfer)
qed simp_all

lemma ledger_inv_run: "ledger_inv s \<Longrightarrow> ledger_inv (run cs s)"
  by (induction cs arbitrary: s) (auto simp: ledger_inv_exec)

lemma reachable_ledger_inv: "reachable s \<Longrightarrow> ledger_inv s"
  by (induction rule: reachable.induct) (simp_all add: ledger_inv_deployed ledger_inv_exec)

subsection \<open>One step of a run\<close>

lemma exec_not_minted:
  assumes "minted_by bc c s = None"
  shows "totalSupply (fst (exec bc c s)) = totalSupply s"
    and "nextTokenId (fst (exec bc c s)) = nextTokenId s"
    and "minterOfMap (fst (exec bc c s)) = minterOfMap s"
    and "mintedAtMap (fst (exec bc c s)) = mintedAtMap s"
    and "dom (ownerOfMap (fst (exec bc c s))) = dom (ownerOfMap s)"
  using assms
  by (cases c; auto simp: transfer_base_def split: sum.splits if_splits)+

lemma exec_minted:
  assumes "minted_by bc c s = Some t"
  shows "t = nextTokenId s" and "totalSupply s < 100"
    and "totalSupply (fst (exec bc c s)) = totalSupply s + 1"
    and "minterOfMap (fst (exec bc c s)) = (minterOfMap s)(t \<mapsto> sender bc)"
    and "mintedAtMap (fst (exec bc c s)) = (mintedAtMap s)(t \<mapsto> ucast (block_number bc))"
    and "dom (ownerOfMap (fst (exec bc c s))) = insert t (dom (ownerOfMap s))"
proof -
  from assms obtain uri w s' where c: "c = Mint uri" and m: "mint bc uri s = Inr (w, s')"
    by (cases c) (auto split: sum.splits)
  note d = mint_Inr_D [OF m]
  from assms c show t: "t = nextTokenId s" by (auto split: sum.splits)
  show "totalSupply s < 100" by (rule d(1))
  show "totalSupply (fst (exec bc c s)) = totalSupply s + 1"
    by (simp add: c m d(5))
  show "minterOfMap (fst (exec bc c s)) = (minterOfMap s)(t \<mapsto> sender bc)"
    by (simp add: c m d(5) t)
  show "mintedAtMap (fst (exec bc c s)) = (mintedAtMap s)(t \<mapsto> ucast (block_number bc))"
    by (simp add: c m d(5) t)
  show "dom (ownerOfMap (fst (exec bc c s))) = insert t (dom (ownerOfMap s))"
    by (simp add: c m d(5) t)
qed

subsection \<open>Whole runs\<close>

lemma run_supply:
  "ledger_inv s \<Longrightarrow>
   unat (totalSupply (run cs s)) = unat (totalSupply s) + successful_mints cs s"
proof (induction cs arbitrary: s)
  case Nil
  then show ?case by (simp add: successful_mints_def)
next
  case (Cons a cs)
  obtain bc c where a: "a = (bc, c)" by (cases a)
  have i: "ledger_inv (fst (exec bc c s))" using Cons.prems by (rule ledger_inv_exec)
  show ?case
  proof (cases "minted_by bc c s")
    case None
    with Cons.IH [OF i] show ?thesis
      by (simp add: a successful_mints_def exec_not_minted(1))
  next
    case (Some t)
    from exec_minted(2,3) [OF Some]
    have "unat (totalSupply (fst (exec bc c s))) = unat (totalSupply s) + 1"
      by (simp add: unat_succ_small)
    with Cons.IH [OF i] Some show ?thesis
      by (simp add: a successful_mints_def)
  qed
qed

lemma run_owner_dom:
  "dom (ownerOfMap (run cs s)) = dom (ownerOfMap s) \<union> set (minted_ids cs s)"
proof (induction cs arbitrary: s)
  case Nil
  then show ?case by simp
next
  case (Cons a cs)
  obtain bc c where a: "a = (bc, c)" by (cases a)
  show ?case
  proof (cases "minted_by bc c s")
    case None
    then show ?thesis by (simp add: a Cons.IH exec_not_minted(5))
  next
    case (Some t)
    then show ?thesis by (simp add: a Cons.IH exec_minted(6))
  qed
qed

lemma minted_ids_owner:
  "(tid \<in> set (minted_ids cs deployed)) = (ownerOfMap (run cs deployed) tid \<noteq> None)"
  using run_owner_dom [of cs deployed] by (auto simp: deployed_fields)

lemma exec_keeps_provenance:
  assumes "ledger_inv s" and "1 \<le> tid" and "tid \<le> totalSupply s"
  shows "minterOfMap (fst (exec bc c s)) tid = minterOfMap s tid"
    and "mintedAtMap (fst (exec bc c s)) tid = mintedAtMap s tid"
    and "tid \<le> totalSupply (fst (exec bc c s))"
proof -
  have "minterOfMap (fst (exec bc c s)) tid = minterOfMap s tid \<and>
        mintedAtMap (fst (exec bc c s)) tid = mintedAtMap s tid \<and>
        tid \<le> totalSupply (fst (exec bc c s))"
  proof (cases "minted_by bc c s")
    case None
    then show ?thesis using assms(3) by (simp add: exec_not_minted)
  next
    case (Some t)
    note e = exec_minted [OF Some]
    from assms(1) e(1) have t: "t = totalSupply s + 1" by (simp add: ledger_inv_def)
    with assms(3) e(2) have "tid \<noteq> t" by (auto simp: succ_not_le_small)
    moreover have "tid \<le> totalSupply s + 1" using assms(3) e(2) by (simp add: le_succ_small)
    ultimately show ?thesis by (simp add: e)
  qed
  then show "minterOfMap (fst (exec bc c s)) tid = minterOfMap s tid"
    and "mintedAtMap (fst (exec bc c s)) tid = mintedAtMap s tid"
    and "tid \<le> totalSupply (fst (exec bc c s))" by simp_all
qed

lemma run_keeps_provenance:
  "ledger_inv s \<Longrightarrow> 1 \<le> tid \<Longrightarrow> tid \<le> totalSupply s \<Longrightarrow>
   minterOfMap (run cs s) tid = minterOfMap s tid \<and>
   mintedAtMap (run cs s) tid = mintedAtMap s tid"
proof (induction cs arbitrary: s)
  case Nil
  then show ?case by simp
next
  case (Cons a cs)
  obtain bc c where a: "a = (bc, c)" by (cases a)
  note k = exec_keeps_provenance [OF Cons.prems, of bc c]
  have i: "ledger_inv (fst (exec bc c s))" using Cons.prems(1) by (rule ledger_inv_exec)
  from Cons.IH [OF i Cons.prems(2) k(3)] k(1,2) show ?case by (simp add: a)
qed

subsection \<open>The concrete storages\<close>

lemma mint_ok_inv:
  assumes "ledger_inv s" and "totalSupply s < 100"
    and "requireTreasuryPayment (outputs bc) = Inr ()"
  shows "\<exists>s'. mint bc uri s = Inr ([WU256 (nextTokenId s)], s') \<and>
              totalSupply s' = totalSupply s + 1"
proof -
  from assms(1,2) have "nextTokenId s \<le> 100"
    by (simp add: ledger_inv_def succ_le_hundred)
  then have "SafeMath_add (nextTokenId s) 1 = Inr (nextTokenId s + 1)"
    by (rule SafeMath_add_small)
  from mint_paid [OF assms(2,3) this] show ?thesis by simp
qed

lemma run_replicate_mint:
  assumes "requireTreasuryPayment (outputs bc) = Inr ()"
  shows "ledger_inv s \<Longrightarrow> unat (totalSupply s) + n \<le> 100 \<Longrightarrow>
         unat (totalSupply (run (replicate n (bc, Mint uri)) s)) = unat (totalSupply s) + n"
proof (induction n arbitrary: s)
  case 0
  then show ?case by simp
next
  case (Suc n)
  from Suc.prems(2) have lt: "totalSupply s < 100"
    by (simp add: word_less_nat_alt)
  from mint_ok_inv [OF Suc.prems(1) lt assms, of uri]
  obtain s' where m: "mint bc uri s = Inr ([WU256 (nextTokenId s)], s')"
    and t: "totalSupply s' = totalSupply s + 1" by blast
  have i: "ledger_inv s'" using Suc.prems(1) m by (rule ledger_inv_mint)
  have u: "unat (totalSupply s') = unat (totalSupply s) + 1"
    using lt by (simp add: t unat_succ_small)
  from Suc.IH [OF i] Suc.prems(2) u m show ?case by simp
qed

lemma sold_out_supply: "totalSupply sold_out = 100"
proof -
  have "unat (totalSupply sold_out) = 100"
    using run_replicate_mint [OF paying_ok ledger_inv_deployed, of 100 "''ipfs://a''"]
    by (simp add: sold_out_def deployed_fields)
  then show ?thesis by (simp add: word_unat_eq_iff)
qed

lemma first_minted_mint: "mint paying ''ipfs://a'' deployed = Inr ([WU256 1], first_minted)"
proof -
  have "SafeMath_add (nextTokenId deployed) 1 = Inr (nextTokenId deployed + 1)"
    by (simp add: deployed_fields SafeMath_add_small)
  from mint_paid [OF _ paying_ok this, of "''ipfs://a''"]
  show ?thesis by (simp add: first_minted_def deployed_fields)
qed

lemma first_minted_supply: "totalSupply first_minted = 1"
  by (subst mint_Inr_D(5) [OF first_minted_mint]) (simp add: deployed_fields)

lemma first_minted_owner: "ownerOfMap first_minted 1 = Some 7"
  by (subst mint_Inr_D(5) [OF first_minted_mint]) (simp add: deployed_fields paying_fields)

lemma transfer_then_mint_owner:
  "ownerOfMap (run [(paying, TransferFrom 9 1), (paying, Mint ''ipfs://b'')] first_minted) 1 = Some 9"
proof -
  have tr: "transfer_base paying 9 1 first_minted =
      Inr ([], first_minted\<lparr>ownerOfMap := (ownerOfMap first_minted)(1 \<mapsto> 9),
                 events := events first_minted @ [Transfer (sender paying) 9 1]\<rparr>)"
    by (simp add: transfer_base_def first_minted_owner paying_fields)
  have i: "ledger_inv first_minted"
    using ledger_inv_deployed first_minted_mint by (rule ledger_inv_mint)
  then have nx: "nextTokenId first_minted = 2"
    by (simp add: ledger_inv_def first_minted_supply)
  have "SafeMath_add 2 1 = Inr (2 + 1)" by (rule SafeMath_add_small) simp
  then have sm: "SafeMath_add 2 1 = Inr 3" by simp
  show ?thesis
    by (simp add: tr mint_def Let_def first_minted_supply nx paying_ok sm
        mint_base_def setTokenURI_def)
qed

section \<open>The properties of the specification\<close>

subsection \<open>C1: the payment check\<close>

text \<open>
  C1 reads "for every call to mint": after a hundred mints a call whose transaction has
  no output at all fails with SupplyExceeded, not with PaymentNotFound, because the supply
  check comes first.
\<close>

theorem C1_sold_out_counterexample:
  "outputs unpaid = [] \<and>
   mint unpaid ''ipfs://x'' sold_out = Inl (SupplyExceeded, sold_out) \<and>
   SupplyExceeded \<noteq> PaymentNotFound"
  by (simp add: unpaid_def mint_supply_exceeded sold_out_supply errors_distinct)

text \<open>
  C1, with the supply condition on both halves. While the minted count is below 100: if no
  output has the treasury address as its destination with a value of at least 500,000 (one
  output decides, nothing is summed), mint fails with PaymentNotFound and has written
  nothing. If such an output exists, the payment check passes. The message of
  PaymentNotFound contains the price 500000 and the treasury address.
\<close>

theorem C1_payment_check:
  "(totalSupply s < 100 \<and>
      \<not> (\<exists>out\<in>set (outputs bc). to_out out = Some TREASURY \<and> MINT_PRICE \<le> value_out out)
      \<longrightarrow> mint bc uri s = Inl (PaymentNotFound, s)) \<and>
   ((\<exists>out\<in>set (outputs bc). to_out out = Some TREASURY \<and> MINT_PRICE \<le> value_out out)
      \<longrightarrow> requireTreasuryPayment (outputs bc) = Inr ()) \<and>
   MINT_PRICE = 500000 \<and>
   sublist ''500000'' (message PaymentNotFound) \<and>
   sublist TREASURY (message PaymentNotFound)"
proof (intro conjI impI)
  assume "totalSupply s < 100 \<and>
      \<not> (\<exists>out\<in>set (outputs bc). to_out out = Some TREASURY \<and> MINT_PRICE \<le> value_out out)"
  then show "mint bc uri s = Inl (PaymentNotFound, s)"
    by (simp add: mint_payment_missing rtp_ok_iff)
next
  assume "\<exists>out\<in>set (outputs bc). to_out out = Some TREASURY \<and> MINT_PRICE \<le> value_out out"
  then show "requireTreasuryPayment (outputs bc) = Inr ()"
    by (simp add: rtp_ok_iff)
qed (simp_all add: MINT_PRICE_def PaymentNotFound_names)

theorem C1_payment_check_witness:
  "totalSupply deployed < 100 \<and>
   \<not> (\<exists>out\<in>set (outputs underpaying). to_out out = Some TREASURY \<and> MINT_PRICE \<le> value_out out) \<and>
   mint underpaying ''ipfs://b'' deployed = Inl (PaymentNotFound, deployed) \<and>
   (\<exists>out\<in>set (outputs paying). to_out out = Some TREASURY \<and> MINT_PRICE \<le> value_out out) \<and>
   requireTreasuryPayment (outputs paying) = Inr ()"
proof -
  have h1: "totalSupply deployed < 100"
    by (simp add: deployed_fields)
  have h2: "\<not> (\<exists>out\<in>set (outputs underpaying).
                 to_out out = Some TREASURY \<and> MINT_PRICE \<le> value_out out)"
    by (simp add: underpaying_def MINT_PRICE_def)
  have h3: "\<exists>out\<in>set (outputs paying). to_out out = Some TREASURY \<and> MINT_PRICE \<le> value_out out"
    by (simp add: paying_def MINT_PRICE_def)
  note t1 = C1_payment_check [of deployed underpaying "''ipfs://b''", THEN conjunct1, rule_format]
  note t2 = C1_payment_check [of deployed paying "''ipfs://b''", THEN conjunct2, THEN conjunct1, rule_format]
  have a: "mint underpaying ''ipfs://b'' deployed = Inl (PaymentNotFound, deployed)"
    using h1 h2 by (intro t1 conjI)
  have b: "requireTreasuryPayment (outputs paying) = Inr ()"
    using h3 by (rule t2)
  show ?thesis by (intro conjI h1 h2 h3 a b)
qed

subsection \<open>C2: the threshold\<close>

text \<open>
  C2 fails in two places. A transaction with a treasury output of 400,000 and another of
  500,000 contains "an output to the treasury address below 500,000 units", and its mint
  succeeds with token 1. After a hundred mints a transaction without any treasury output
  fails with SupplyExceeded, not with PaymentNotFound.
\<close>

theorem C2_mixed_and_sold_out_counterexample:
  "to_out (hd (outputs mixed)) = Some TREASURY \<and> value_out (hd (outputs mixed)) < 500000 \<and>
   snd (exec mixed (Mint ''ipfs://a'') deployed) = Inr [WU256 1] \<and>
   outputs unpaid = [] \<and>
   snd (exec unpaid (Mint ''ipfs://x'') sold_out) = Inl SupplyExceeded \<and>
   SupplyExceeded \<noteq> PaymentNotFound"
proof -
  have "requireTreasuryPayment (outputs mixed) = Inr ()"
    by (simp add: mixed_def MINT_PRICE_def)
  moreover have "SafeMath_add (nextTokenId deployed) 1 = Inr (nextTokenId deployed + 1)"
    by (simp add: deployed_fields SafeMath_add_small)
  ultimately have "snd (exec mixed (Mint ''ipfs://a'') deployed) = Inr [WU256 1]"
    using mint_paid [of deployed mixed _ "''ipfs://a''"] by (simp add: deployed_fields)
  moreover have "snd (exec unpaid (Mint ''ipfs://x'') sold_out) = Inl SupplyExceeded"
    by (simp add: mint_supply_exceeded sold_out_supply)
  ultimately show ?thesis
    by (simp add: mixed_def unpaid_def errors_distinct)
qed

text \<open>
  C2, as the code has it. In every storage reachable from deployment whose minted count is
  below 100: if every output to the treasury address (there may be none) is below 500,000,
  mint fails with PaymentNotFound; if some output to the treasury address is exactly
  500,000, mint succeeds and returns the next token id.
\<close>

theorem C2_threshold:
  assumes "reachable s" and "totalSupply s < 100"
  shows "((\<forall>out\<in>set (outputs bc). to_out out = Some TREASURY \<longrightarrow> value_out out < 500000)
            \<longrightarrow> mint bc uri s = Inl (PaymentNotFound, s)) \<and>
         ((\<exists>out\<in>set (outputs bc). to_out out = Some TREASURY \<and> value_out out = 500000)
            \<longrightarrow> (\<exists>s'. mint bc uri s = Inr ([WU256 (nextTokenId s)], s')))"
proof (intro conjI impI)
  assume "\<forall>out\<in>set (outputs bc). to_out out = Some TREASURY \<longrightarrow> value_out out < 500000"
  then have "requireTreasuryPayment (outputs bc) \<noteq> Inr ()"
    by (auto simp: rtp_ok_iff MINT_PRICE_def)
  with assms(2) show "mint bc uri s = Inl (PaymentNotFound, s)"
    by (rule mint_payment_missing)
next
  assume "\<exists>out\<in>set (outputs bc). to_out out = Some TREASURY \<and> value_out out = 500000"
  then have "requireTreasuryPayment (outputs bc) = Inr ()"
    by (auto simp: rtp_ok_iff MINT_PRICE_def)
  from mint_ok_inv [OF reachable_ledger_inv [OF assms(1)] assms(2) this]
  show "\<exists>s'. mint bc uri s = Inr ([WU256 (nextTokenId s)], s')" by blast
qed

theorem C2_threshold_witness:
  "reachable deployed \<and> totalSupply deployed < 100 \<and>
   outputs underpaying = [\<lparr> to_out = Some TREASURY, value_out = 400000 \<rparr>] \<and>
   mint underpaying ''ipfs://b'' deployed = Inl (PaymentNotFound, deployed) \<and>
   (\<exists>out\<in>set (outputs paying). to_out out = Some TREASURY \<and> value_out out = 500000) \<and>
   mint paying ''ipfs://a'' deployed = Inr ([WU256 1], first_minted)"
proof -
  have h1: "reachable deployed" by (rule reachable_deployed)
  have h2: "totalSupply deployed < 100" by (simp add: deployed_fields)
  have h3: "\<forall>out\<in>set (outputs underpaying). to_out out = Some TREASURY \<longrightarrow> value_out out < 500000"
    by (simp add: underpaying_def)
  have h4: "\<exists>out\<in>set (outputs paying). to_out out = Some TREASURY \<and> value_out out = 500000"
    by (simp add: paying_def)
  have a: "mint underpaying ''ipfs://b'' deployed = Inl (PaymentNotFound, deployed)"
    using C2_threshold [OF h1 h2, of underpaying "''ipfs://b''", THEN conjunct1] h3 by (rule mp)
  have "\<exists>s'. mint paying ''ipfs://a'' deployed = Inr ([WU256 (nextTokenId deployed)], s')"
    using C2_threshold [OF h1 h2, of paying "''ipfs://a''", THEN conjunct2] h4 by (rule mp)
  then have b: "mint paying ''ipfs://a'' deployed = Inr ([WU256 1], first_minted)"
    by (simp add: first_minted_mint)
  have o: "outputs underpaying = [\<lparr> to_out = Some TREASURY, value_out = 400000 \<rparr>]"
    by (simp add: underpaying_def)
  show ?thesis by (intro conjI h1 h2 o h4 a b)
qed

subsection \<open>C3: the supply cap comes first\<close>

text \<open>
  C3. In every storage whose minted count is at least 100, every mint call fails with
  SupplyExceeded and leaves the storage as it was, whatever the transaction pays: the
  supply check comes before the payment check.
\<close>

theorem C3_supply_exceeded_first:
  "100 \<le> totalSupply s \<Longrightarrow>
   mint bc uri s = Inl (SupplyExceeded, s) \<and> exec bc (Mint uri) s = (s, Inl SupplyExceeded)"
  by (simp add: mint_supply_exceeded)

theorem C3_supply_exceeded_first_witness:
  "100 \<le> totalSupply sold_out \<and> requireTreasuryPayment (outputs paying) = Inr () \<and>
   mint paying ''ipfs://x'' sold_out = Inl (SupplyExceeded, sold_out) \<and>
   exec paying (Mint ''ipfs://x'') sold_out = (sold_out, Inl SupplyExceeded)"
  using C3_supply_exceeded_first [of sold_out paying "''ipfs://x''"]
  by (simp add: sold_out_supply paying_ok)

subsection \<open>C4: the counters\<close>

text \<open>
  C4. Deployment leaves NextTokenId = 1 and SupplyCounter = 0. After any sequence of calls
  from there, of which N are successful mints, SupplyCounter = N and NextTokenId = N + 1,
  and N is at most 100. Each successful mint increments NextTokenId by exactly 1, without
  wrapping.
\<close>

theorem C4_counters:
  "nextTokenId deployed = 1 \<and> totalSupply deployed = 0 \<and>
   unat (totalSupply (run cs deployed)) = successful_mints cs deployed \<and>
   unat (nextTokenId (run cs deployed)) = successful_mints cs deployed + 1 \<and>
   successful_mints cs deployed \<le> 100 \<and>
   (\<forall>bc uri s w s'. mint bc uri s = Inr (w, s') \<longrightarrow>
       unat (nextTokenId s') = unat (nextTokenId s) + 1)"
proof -
  have i: "ledger_inv (run cs deployed)"
    using ledger_inv_deployed by (rule ledger_inv_run)
  have n: "unat (totalSupply (run cs deployed)) = successful_mints cs deployed"
    using run_supply [OF ledger_inv_deployed, of cs] by (simp add: deployed_fields)
  from i have le: "totalSupply (run cs deployed) \<le> 100"
    and nx: "nextTokenId (run cs deployed) = totalSupply (run cs deployed) + 1"
    by (simp_all add: ledger_inv_def)
  from le have "unat (totalSupply (run cs deployed)) \<le> 100" by (simp add: word_le_nat_alt)
  with n have b: "successful_mints cs deployed \<le> 100" by simp
  have x: "unat (nextTokenId (run cs deployed)) = successful_mints cs deployed + 1"
    using n by (simp add: nx unat_succ_le100 [OF le])
  have step: "\<forall>bc uri s w s'. mint bc uri s = Inr (w, s') \<longrightarrow>
       unat (nextTokenId s') = unat (nextTokenId s) + 1"
  proof (intro allI impI)
    fix bc uri s w s'
    assume m: "mint bc uri s = Inr (w, s')"
    note d = mint_Inr_D [OF m]
    from SafeMath_add_Inr [OF d(3)] show "unat (nextTokenId s') = unat (nextTokenId s) + 1"
      by (simp add: d(5))
  qed
  from n x b step show ?thesis by (simp add: deployed_fields)
qed

theorem C4_counters_witness:
  "mint paying ''ipfs://a'' deployed = Inr ([WU256 1], first_minted) \<and>
   unat (nextTokenId first_minted) = unat (nextTokenId deployed) + 1 \<and>
   successful_mints [(paying, Mint ''ipfs://a''), (underpaying, Mint ''ipfs://b'')] deployed = 1 \<and>
   unat (totalSupply (run [(paying, Mint ''ipfs://a''), (underpaying, Mint ''ipfs://b'')] deployed)) = 1 \<and>
   unat (nextTokenId (run [(paying, Mint ''ipfs://a''), (underpaying, Mint ''ipfs://b'')] deployed)) = 2"
proof -
  note t = C4_counters [of "[(paying, Mint ''ipfs://a''), (underpaying, Mint ''ipfs://b'')]"]
  have m: "mint paying ''ipfs://a'' deployed = Inr ([WU256 1], first_minted)"
    by (rule first_minted_mint)
  have f: "totalSupply first_minted < 100" by (simp add: first_minted_supply)
  have u: "mint underpaying ''ipfs://b'' first_minted = Inl (PaymentNotFound, first_minted)"
    using f by (rule mint_payment_missing) (simp add: underpaying_fails)
  have c: "successful_mints [(paying, Mint ''ipfs://a''), (underpaying, Mint ''ipfs://b'')] deployed = 1"
    by (simp add: successful_mints_def m u)
  from t have s: "\<forall>bc uri s w s'. mint bc uri s = Inr (w, s') \<longrightarrow>
       unat (nextTokenId s') = unat (nextTokenId s) + 1" by (elim conjE)
  from s m have "unat (nextTokenId first_minted) = unat (nextTokenId deployed) + 1" by blast
  with t m c show ?thesis by simp
qed

subsection \<open>C5: a failed mint writes nothing\<close>

text \<open>
  C5. A mint call that fails leaves the committed storage as it was. When it fails with
  SupplyExceeded or PaymentNotFound, the storage at the throw is still the storage at
  entry: no ledger mutation, URI, MinterOf or MintedAt write or NextTokenId update had
  been made before the preconditions were confirmed.
\<close>

theorem C5_failed_mint_writes_nothing:
  "mint bc uri s = Inl (e, s') \<Longrightarrow>
     fst (exec bc (Mint uri) s) = s \<and>
     (e = SupplyExceeded \<or> e = PaymentNotFound \<longrightarrow> s' = s)"
  using mint_Inl_D [of bc uri s e s']
  by (auto simp: errors_distinct)

theorem C5_failed_mint_writes_nothing_witness:
  "mint underpaying ''ipfs://b'' deployed = Inl (PaymentNotFound, deployed) \<and>
   fst (exec underpaying (Mint ''ipfs://b'') deployed) = deployed \<and>
   nextTokenId (fst (exec underpaying (Mint ''ipfs://b'') deployed)) = 1"
  using C5_failed_mint_writes_nothing [of underpaying "''ipfs://b''" deployed PaymentNotFound deployed]
    mint_payment_missing [of deployed underpaying "''ipfs://b''"]
  by (simp add: deployed_fields underpaying_fails)

subsection \<open>C6: what a successful mint returns and records\<close>

text \<open>
  C6. A successful mint returns the value NextTokenId had at the start of the call.
  Afterwards minterOf of that id returns the sender of the call and mintedAt returns the
  block number of the call, which the widening to 256 bits leaves unchanged.
\<close>

theorem C6_mint_records_provenance:
  "mint bc uri s = Inr (w, s') \<Longrightarrow>
     w = [WU256 (nextTokenId s)] \<and>
     minterOf (nextTokenId s) s' = Inr [WU256 (u256FromAddress (sender bc))] \<and>
     mintedAt (nextTokenId s) s' = Inr [WU256 (ucast (block_number bc))] \<and>
     unat (ucast (block_number bc) :: u256) = unat (block_number bc)"
proof -
  assume m: "mint bc uri s = Inr (w, s')"
  note d = mint_Inr_D [OF m]
  have o: "ownerOfMap s' (nextTokenId s) = Some (sender bc)" by (simp add: d(5))
  have a: "minterOfMap s' (nextTokenId s) = Some (u256FromAddress (sender bc))"
    by (simp add: d(5) u256FromAddress_def)
  have b: "mintedAtMap s' (nextTokenId s) = Some (ucast (block_number bc))"
    by (simp add: d(5))
  have "minterOf (nextTokenId s) s' = Inr [WU256 (u256FromAddress (sender bc))]"
    using minterOf_existing [OF o] by (simp add: get_stored_def a)
  moreover have "mintedAt (nextTokenId s) s' = Inr [WU256 (ucast (block_number bc))]"
    using mintedAt_existing [OF o] by (simp add: get_stored_def b)
  ultimately show ?thesis using d(4) by (simp add: unat_block_number)
qed

theorem C6_mint_records_provenance_witness:
  "mint paying ''ipfs://a'' deployed = Inr ([WU256 1], first_minted) \<and>
   nextTokenId deployed = 1 \<and>
   minterOf 1 first_minted = Inr [WU256 7] \<and>
   mintedAt 1 first_minted = Inr [WU256 840000]"
  using C6_mint_records_provenance [OF first_minted_mint]
  by (simp add: first_minted_mint deployed_fields paying_fields u256FromAddress_def)

subsection \<open>C7: provenance is written once\<close>

text \<open>
  C7. For the token id a successful mint creates, in a storage reachable from deployment:
  the MinterOf and MintedAt entries of that id did not exist before the mint, and after
  it they hold the sender and the block number of that mint through every later sequence
  of calls, later mints and ownership transfers included; minterOf and mintedAt keep
  returning them.
\<close>

theorem C7_provenance_immutable:
  assumes "reachable s" and "mint bc uri s = Inr (w, s')"
  shows "minterOfMap s (nextTokenId s) = None \<and> mintedAtMap s (nextTokenId s) = None \<and>
         (\<forall>cs. minterOfMap (run cs s') (nextTokenId s) = Some (u256FromAddress (sender bc)) \<and>
               mintedAtMap (run cs s') (nextTokenId s) = Some (ucast (block_number bc)) \<and>
               minterOf (nextTokenId s) (run cs s') = Inr [WU256 (u256FromAddress (sender bc))] \<and>
               mintedAt (nextTokenId s) (run cs s') = Inr [WU256 (ucast (block_number bc))])"
proof -
  note d = mint_Inr_D [OF assms(2)]
  have i: "ledger_inv s" using assms(1) by (rule reachable_ledger_inv)
  have i': "ledger_inv s'" using i assms(2) by (rule ledger_inv_mint)
  from i have nx: "nextTokenId s = totalSupply s + 1" by (simp add: ledger_inv_def)
  have notin: "nextTokenId s \<notin> {t. 1 \<le> t \<and> t \<le> totalSupply s}"
    using d(1) by (simp add: nx succ_not_le_small)
  from i notin have "nextTokenId s \<notin> dom (minterOfMap s)" "nextTokenId s \<notin> dom (mintedAtMap s)"
    by (simp_all add: ledger_inv_def)
  then have before: "minterOfMap s (nextTokenId s) = None" "mintedAtMap s (nextTokenId s) = None"
    by auto
  have one: "1 \<le> nextTokenId s" using d(1) by (simp add: nx one_le_succ_small)
  have le: "nextTokenId s \<le> totalSupply s'" by (simp add: d(5) nx)
  have after: "minterOfMap (run cs s') (nextTokenId s) = Some (u256FromAddress (sender bc)) \<and>
               mintedAtMap (run cs s') (nextTokenId s) = Some (ucast (block_number bc)) \<and>
               minterOf (nextTokenId s) (run cs s') = Inr [WU256 (u256FromAddress (sender bc))] \<and>
               mintedAt (nextTokenId s) (run cs s') = Inr [WU256 (ucast (block_number bc))]" for cs
  proof -
    from run_keeps_provenance [OF i' one le, of cs]
    have a: "minterOfMap (run cs s') (nextTokenId s) = Some (u256FromAddress (sender bc))"
      and b: "mintedAtMap (run cs s') (nextTokenId s) = Some (ucast (block_number bc))"
      by (simp_all add: d(5) u256FromAddress_def)
    have "nextTokenId s \<in> dom (ownerOfMap s')" by (simp add: d(5))
    then have "nextTokenId s \<in> dom (ownerOfMap (run cs s'))" by (simp add: run_owner_dom)
    then obtain a' where o: "ownerOfMap (run cs s') (nextTokenId s) = Some a'" by auto
    from a b show ?thesis
      by (simp add: minterOf_existing [OF o] mintedAt_existing [OF o] get_stored_def)
  qed
  from before after show ?thesis by blast
qed

theorem C7_provenance_immutable_witness:
  "reachable deployed \<and> mint paying ''ipfs://a'' deployed = Inr ([WU256 1], first_minted) \<and>
   minterOfMap deployed 1 = None \<and>
   ownerOfMap first_minted 1 = Some 7 \<and>
   ownerOfMap (run [(paying, TransferFrom 9 1), (paying, Mint ''ipfs://b'')] first_minted) 1 = Some 9 \<and>
   minterOf 1 (run [(paying, TransferFrom 9 1), (paying, Mint ''ipfs://b'')] first_minted) = Inr [WU256 7] \<and>
   mintedAt 1 (run [(paying, TransferFrom 9 1), (paying, Mint ''ipfs://b'')] first_minted) = Inr [WU256 840000]"
proof -
  note t = C7_provenance_immutable [OF reachable_deployed first_minted_mint]
  from t have "minterOf (nextTokenId deployed)
                 (run [(paying, TransferFrom 9 1), (paying, Mint ''ipfs://b'')] first_minted) =
               Inr [WU256 (u256FromAddress (sender paying))]"
    and "mintedAt (nextTokenId deployed)
                 (run [(paying, TransferFrom 9 1), (paying, Mint ''ipfs://b'')] first_minted) =
               Inr [WU256 (ucast (block_number paying))]"
    by blast+
  note ab = this
  have c: "ucast (840000 :: u64) = (840000 :: u256)" by simp
  have a': "minterOf 1 (run [(paying, TransferFrom 9 1), (paying, Mint ''ipfs://b'')] first_minted) =
            Inr [WU256 7]"
    using ab(1) by (simp only: deployed_fields paying_fields u256FromAddress_def)
  have b': "mintedAt 1 (run [(paying, TransferFrom 9 1), (paying, Mint ''ipfs://b'')] first_minted) =
            Inr [WU256 840000]"
    using ab(2) by (simp only: deployed_fields paying_fields c)
  have n: "minterOfMap deployed 1 = None" by (simp add: deployed_fields)
  show ?thesis
    by (intro conjI reachable_deployed first_minted_mint n first_minted_owner
        transfer_then_mint_owner a' b')
qed

subsection \<open>C8: reading a token that does not exist\<close>

text \<open>
  C8. After any sequence of calls from deployment: for an id returned by one of the
  successful mints of the sequence, minterOf and mintedAt succeed; for every other id they
  both fail with TokenNotFound; and 0 and every id above the current supply are among the
  ids never minted.
\<close>

theorem C8_token_not_found:
  "(tid \<in> set (minted_ids cs deployed) \<longrightarrow>
      (\<exists>w. minterOf tid (run cs deployed) = Inr w) \<and>
      (\<exists>w. mintedAt tid (run cs deployed) = Inr w)) \<and>
   (tid \<notin> set (minted_ids cs deployed) \<longrightarrow>
      minterOf tid (run cs deployed) = Inl (TokenNotFound tid) \<and>
      mintedAt tid (run cs deployed) = Inl (TokenNotFound tid)) \<and>
   (tid = 0 \<or> totalSupply (run cs deployed) < tid \<longrightarrow> tid \<notin> set (minted_ids cs deployed))"
proof (intro conjI impI)
  assume "tid \<in> set (minted_ids cs deployed)"
  then obtain a where o: "ownerOfMap (run cs deployed) tid = Some a"
    by (auto simp: minted_ids_owner)
  show "\<exists>w. minterOf tid (run cs deployed) = Inr w"
    using minterOf_existing [OF o] by blast
  show "\<exists>w. mintedAt tid (run cs deployed) = Inr w"
    using mintedAt_existing [OF o] by blast
next
  assume "tid \<notin> set (minted_ids cs deployed)"
  then have o: "ownerOfMap (run cs deployed) tid = None"
    by (simp add: minted_ids_owner)
  from reads_missing [OF o]
  show "minterOf tid (run cs deployed) = Inl (TokenNotFound tid)"
    and "mintedAt tid (run cs deployed) = Inl (TokenNotFound tid)" by simp_all
next
  assume out: "tid = 0 \<or> totalSupply (run cs deployed) < tid"
  have "ledger_inv (run cs deployed)"
    using ledger_inv_deployed by (rule ledger_inv_run)
  then have "dom (ownerOfMap (run cs deployed)) = {t. 1 \<le> t \<and> t \<le> totalSupply (run cs deployed)}"
    by (simp add: ledger_inv_def)
  moreover from out have "tid \<notin> {t. 1 \<le> t \<and> t \<le> totalSupply (run cs deployed)}"
    by (auto simp: one_le_word_iff)
  ultimately have "ownerOfMap (run cs deployed) tid = None" by blast
  then show "tid \<notin> set (minted_ids cs deployed)" by (simp add: minted_ids_owner)
qed

theorem C8_token_not_found_witness:
  "1 \<in> set (minted_ids [(paying, Mint ''ipfs://a'')] deployed) \<and>
   (\<exists>w. minterOf 1 first_minted = Inr w) \<and> (\<exists>w. mintedAt 1 first_minted = Inr w) \<and>
   0 \<notin> set (minted_ids [(paying, Mint ''ipfs://a'')] deployed) \<and>
   minterOf 0 first_minted = Inl (TokenNotFound 0) \<and>
   mintedAt 0 first_minted = Inl (TokenNotFound 0) \<and>
   totalSupply first_minted < 2 \<and>
   2 \<notin> set (minted_ids [(paying, Mint ''ipfs://a'')] deployed) \<and>
   minterOf 2 first_minted = Inl (TokenNotFound 2) \<and>
   mintedAt 2 first_minted = Inl (TokenNotFound 2) \<and>
   message (TokenNotFound 2) = ''OPFace: token 2 does not exist''"
proof -
  have ids: "minted_ids [(paying, Mint ''ipfs://a'')] deployed = [1]"
    by (simp add: first_minted_mint deployed_fields)
  have r: "run [(paying, Mint ''ipfs://a'')] deployed = first_minted"
    by (simp add: first_minted_def)
  have lt: "totalSupply first_minted < 2" by (simp add: first_minted_supply)
  have msg: "message (TokenNotFound 2) = ''OPFace: token 2 does not exist''"
    by (simp add: TokenNotFound_def toString_def dec_digits.simps digit_char_def)
  note t = C8_token_not_found [of _ "[(paying, Mint ''ipfs://a'')]"]
  have m1: "1 \<in> set (minted_ids [(paying, Mint ''ipfs://a'')] deployed)"
    by (simp only: ids) simp
  from t [of 0] have m0: "0 \<notin> set (minted_ids [(paying, Mint ''ipfs://a'')] deployed)"
    by blast
  from t [of 2] lt have m2: "2 \<notin> set (minted_ids [(paying, Mint ''ipfs://a'')] deployed)"
    unfolding r by blast
  from t [of 1] m1 have a: "(\<exists>w. minterOf 1 first_minted = Inr w) \<and> (\<exists>w. mintedAt 1 first_minted = Inr w)"
    unfolding r by blast
  from t [of 0] m0 have b: "minterOf 0 first_minted = Inl (TokenNotFound 0) \<and>
      mintedAt 0 first_minted = Inl (TokenNotFound 0)"
    unfolding r by blast
  from t [of 2] m2 have c: "minterOf 2 first_minted = Inl (TokenNotFound 2) \<and>
      mintedAt 2 first_minted = Inl (TokenNotFound 2)"
    unfolding r by blast
  from a b c m1 m0 m2 lt msg show ?thesis by blast
qed

subsection \<open>C9: the constant accessors\<close>

text \<open>
  C9. In every storage, mintPrice returns 500,000 and treasury returns the treasury
  address (its length in bytes, then the bytes); neither result depends on the storage and
  neither call changes it.
\<close>

theorem C9_constant_accessors:
  "exec bc MintPrice s = (s, Inr [WU256 500000]) \<and>
   exec bc Treasury s =
     (s, Inr [WU32 64, WBytes ''bcrt1pzcu0e6e04uc5l43fvrr2czh2fxh5my8c08ggnywghw3hchznqdcsr9x2s9'']) \<and>
   mintPrice s = mintPrice s0 \<and> treasury s = treasury s0"
  by (simp add: mintPrice_def treasury_def MINT_PRICE_def TREASURY_def)

subsection \<open>C10: the URI plays no part in the authorization\<close>

text \<open>
  C10. From the same storage and the same transaction, two mint calls with different URIs
  have the same outcome, the same error or the same returned token id, and leave storages
  that are equal once their URI stores are set aside. The URI store of a successful mint
  is the old one with the URI as given at the new id; no URI is refused, so a mint that
  succeeds with one URI succeeds with any other, the empty one included.
\<close>

theorem C10_uri_independent:
  "snd (exec bc (Mint u1) s) = snd (exec bc (Mint u2) s) \<and>
   (fst (exec bc (Mint u1) s))\<lparr>tokenURIs := m\<rparr> = (fst (exec bc (Mint u2) s))\<lparr>tokenURIs := m\<rparr> \<and>
   (\<forall>w s1. mint bc u1 s = Inr (w, s1) \<longrightarrow>
      tokenURIs s1 = (tokenURIs s)(nextTokenId s \<mapsto> u1) \<and>
      (\<exists>s2. mint bc u2 s = Inr (w, s2)))"
proof (cases "100 \<le> totalSupply s")
  case True
  then show ?thesis by (simp add: mint_supply_exceeded)
next
  case False
  then have lt: "totalSupply s < 100" by simp
  show ?thesis
  proof (cases "requireTreasuryPayment (outputs bc) = Inr ()")
    case False
    with lt show ?thesis by (simp add: mint_payment_missing)
  next
    case True
    show ?thesis
    proof (cases "SafeMath_add (nextTokenId s) 1")
      case (Inl e)
      from mint_overflow [OF lt True Inl, of u1] obtain t1 where "mint bc u1 s = Inl (e, t1)" ..
      moreover
      from mint_overflow [OF lt True Inl, of u2] obtain t2 where "mint bc u2 s = Inl (e, t2)" ..
      ultimately show ?thesis by simp
    next
      case (Inr n)
      from mint_paid [OF lt True Inr] show ?thesis by simp
    qed
  qed
qed

theorem C10_uri_independent_witness:
  "mint paying [] deployed = Inr ([WU256 1], fst (exec paying (Mint []) deployed)) \<and>
   tokenURIs (fst (exec paying (Mint []) deployed)) = [1 \<mapsto> []] \<and>
   mint paying ''ipfs://a'' deployed = Inr ([WU256 1], first_minted)"
proof -
  have "SafeMath_add (nextTokenId deployed) 1 = Inr (nextTokenId deployed + 1)"
    by (simp add: deployed_fields SafeMath_add_small)
  from mint_paid [OF _ paying_ok this, of "[]"]
  have m: "mint paying [] deployed = Inr ([WU256 1], fst (exec paying (Mint []) deployed))"
    by (simp add: deployed_fields)
  note t = C10_uri_independent [of paying "[]" deployed "''ipfs://a''" Map.empty,
             THEN conjunct2, THEN conjunct2, rule_format, OF m]
  from t have "tokenURIs (fst (exec paying (Mint []) deployed)) = [1 \<mapsto> []]"
    by (simp only: deployed_fields)
  with m first_minted_mint show ?thesis by (intro conjI)
qed

end
